theory Spec2Isabelle
  imports Main "HOL-Library.Sublist" "HOL-Library.Word"
begin

section \<open>Go strings and the library functions the handlers call\<close>

text \<open>
  The HTTP handlers of the server and the functions of package \<open>database\<close> that they call,
  as functions of the request, of the store and of what the upstream services answer.
  What the handlers write to the log is left out: it changes neither a response nor the
  store.

  A Go \<open>string\<close> is a sequence of bytes; it is modelled as a \<open>string\<close> (a list of
  \<open>char\<close>, one per byte), and so is a \<open>[]byte\<close>.  The functions of package \<open>strings\<close> that
  the handlers use are modelled on bytes, as Go runs them.
\<close>

text \<open>\<open>strings.Contains(s, substr)\<close>: \<open>substr\<close> occurs in \<open>s\<close> as a contiguous run of bytes.\<close>

fun Contains :: "string \<Rightarrow> string \<Rightarrow> bool" where
  "Contains [] substr = (substr = [])"
| "Contains (c # s) substr = (prefix substr (c # s) \<or> Contains s substr)"

text \<open>
  The UTF-8 encodings of the code points for which \<open>unicode.IsSpace\<close> holds: the six
  ASCII ones (tab, line feed, vertical tab, form feed, carriage return, space), then U+0085,
  U+00A0, U+1680, U+2000 to U+200A, U+2028, U+2029, U+202F, U+205F and U+3000.
\<close>

definition spaceRunes :: "string list" where
  "spaceRunes =
     [[CHR 0x09], [CHR 0x0A], [CHR 0x0B], [CHR 0x0C], [CHR 0x0D], [CHR 0x20],
      [CHR 0xC2, CHR 0x85], [CHR 0xC2, CHR 0xA0],
      [CHR 0xE1, CHR 0x9A, CHR 0x80],
      [CHR 0xE2, CHR 0x80, CHR 0x80], [CHR 0xE2, CHR 0x80, CHR 0x81],
      [CHR 0xE2, CHR 0x80, CHR 0x82], [CHR 0xE2, CHR 0x80, CHR 0x83],
      [CHR 0xE2, CHR 0x80, CHR 0x84], [CHR 0xE2, CHR 0x80, CHR 0x85],
      [CHR 0xE2, CHR 0x80, CHR 0x86], [CHR 0xE2, CHR 0x80, CHR 0x87],
      [CHR 0xE2, CHR 0x80, CHR 0x88], [CHR 0xE2, CHR 0x80, CHR 0x89],
      [CHR 0xE2, CHR 0x80, CHR 0x8A],
      [CHR 0xE2, CHR 0x80, CHR 0xA8], [CHR 0xE2, CHR 0x80, CHR 0xA9],
      [CHR 0xE2, CHR 0x80, CHR 0xAF],
      [CHR 0xE2, CHR 0x81, CHR 0x9F],
      [CHR 0xE3, CHR 0x80, CHR 0x80]]"

text \<open>
  The width in bytes of the white-space rune that \<open>s\<close> starts with (ends with), and 0 when
  \<open>s\<close> does not start (end) with one.  Go decodes a rune from the front with
  \<open>utf8.DecodeRuneInString\<close> and from the back with \<open>utf8.DecodeLastRuneInString\<close>; both
  accept only the shortest encoding of a code point and give U+FFFD, which is no space,
  for anything else.
\<close>

definition spaceWidth :: "string \<Rightarrow> nat" where
  "spaceWidth s = (case find (\<lambda>e. prefix e s) spaceRunes of None \<Rightarrow> 0 | Some e \<Rightarrow> length e)"

definition lastSpaceWidth :: "string \<Rightarrow> nat" where
  "lastSpaceWidth s = (case find (\<lambda>e. suffix e s) spaceRunes of None \<Rightarrow> 0 | Some e \<Rightarrow> length e)"

function TrimLeftSpace :: "string \<Rightarrow> string" where
  "TrimLeftSpace s = (if spaceWidth s = 0 then s else TrimLeftSpace (drop (spaceWidth s) s))"
  by pat_completeness auto
termination
proof (relation "measure length")
  show "wf (measure length)" by simp
next
  fix s :: string
  assume w: "spaceWidth s \<noteq> 0"
  then have "s \<noteq> []"
    by (auto simp: spaceWidth_def spaceRunes_def)
  with w show "(drop (spaceWidth s) s, s) \<in> measure length"
    by simp
qed

function TrimRightSpace :: "string \<Rightarrow> string" where
  "TrimRightSpace s =
     (if lastSpaceWidth s = 0 then s else TrimRightSpace (take (length s - lastSpaceWidth s) s))"
  by pat_completeness auto
termination
proof (relation "measure length")
  show "wf (measure length)" by simp
next
  fix s :: string
  assume w: "lastSpaceWidth s \<noteq> 0"
  then have "s \<noteq> []"
    by (auto simp: lastSpaceWidth_def spaceRunes_def)
  with w show "(take (length s - lastSpaceWidth s) s, s) \<in> measure length"
    by simp
qed

declare TrimLeftSpace.simps [simp del] TrimRightSpace.simps [simp del]

text \<open>\<open>strings.TrimSpace(s)\<close>: all leading and trailing white space removed.\<close>

definition TrimSpace :: "string \<Rightarrow> string" where
  "TrimSpace s = TrimRightSpace (TrimLeftSpace s)"

text \<open>
  \<open>strings.TrimLeft\<close>, \<open>strings.TrimRight\<close> and \<open>strings.Trim\<close> for a cutset of ASCII
  characters, the only cutsets the handlers pass: Go then compares byte by byte.
\<close>

definition TrimLeft :: "string \<Rightarrow> string \<Rightarrow> string" where
  "TrimLeft s cutset = dropWhile (\<lambda>c. c \<in> set cutset) s"

definition TrimRight :: "string \<Rightarrow> string \<Rightarrow> string" where
  "TrimRight s cutset = rev (dropWhile (\<lambda>c. c \<in> set cutset) (rev s))"

definition Trim :: "string \<Rightarrow> string \<Rightarrow> string" where
  "Trim s cutset = TrimLeft (TrimRight s cutset) cutset"

section \<open>Normalisation and parsing of LLM output\<close>

text \<open>
  \<open>cleanLLMResponse\<close>: trim white space, trim the quote characters \<open>"\<close> (0x22) and
  \<open>'\<close> (0x27) from both ends, trim \<open>.,!?;:\<close> from the right, trim white space again.
\<close>

definition cleanLLMResponse :: "string \<Rightarrow> string" where
  "cleanLLMResponse response =
     (let result = TrimSpace response;
          result = Trim result [CHR 0x22, CHR 0x27];
          result = TrimRight result ''.,!?;:'';
          result = TrimSpace result
      in result)"

text \<open>
  The last statements of \<open>determineMode\<close>, which turn the decoded LLM response into the
  mode: 0 is chat, 1 is task, 2 is automatic task.
\<close>

definition parseMode :: "string \<Rightarrow> int" where
  "parseMode response =
     (let modeStr = TrimSpace response
      in if Contains modeStr ''1'' then 1
         else if Contains modeStr ''2'' then 2
         else 0)"

text \<open>
  The block of \<open>processTaskMode\<close> that turns the normalised output of the model selector
  into the model kind: 0 is the cloud model, 1 person, 2 pet, 3 gesture.
\<close>

definition parseModelType :: "string \<Rightarrow> int" where
  "parseModelType modelTypeStr =
     (if Contains modelTypeStr ''2'' then 2
      else if Contains modelTypeStr ''3'' then 3
      else if Contains modelTypeStr ''0'' then 0
      else 1)"

section \<open>Floating-point arithmetic of the duration computation\<close>

text \<open>
  The handler computes the duration in \<open>float64\<close>.  A non-negative finite \<open>float64\<close> is
  modelled exactly, as a pair \<open>(m, e)\<close> that stands for \<open>m * 2 ^ e\<close>.  The results of
  IEEE 754 operations are the exact results rounded to the nearest value with a 53-bit
  significand, ties to the even significand.  Subnormal numbers and overflow are left
  out: the values of the duration computation lie between \<open>2 ^ -15\<close> and \<open>2 ^ 74\<close>.
\<close>

type_synonym float64 = "int \<times> int"

text \<open>The number of bits of a positive number.\<close>

function bitLen :: "int \<Rightarrow> nat" where
  "bitLen n = (if n \<le> 0 then 0 else Suc (bitLen (n div 2)))"
  by pat_completeness auto
termination
  by (relation "measure nat") auto

declare bitLen.simps [simp del]

text \<open>The fraction \<open>num / den\<close> times \<open>2 ^ k\<close>, as a numerator and a denominator.\<close>

definition scaled :: "int \<Rightarrow> int \<Rightarrow> int \<Rightarrow> int \<times> int" where
  "scaled num den k = (if 0 \<le> k then (num * 2 ^ nat k, den) else (num, den * 2 ^ nat (- k)))"

text \<open>
  The \<open>float64\<close> nearest to \<open>num / den\<close> (with \<open>num \<ge> 0\<close> and \<open>den > 0\<close>): the exponent
  \<open>- k\<close> is chosen so that the significand \<open>q\<close> has 53 bits, and the remainder \<open>r\<close>
  decides the rounding.
\<close>

definition roundFloat64 :: "int \<Rightarrow> int \<Rightarrow> float64" where
  "roundFloat64 num den =
     (if num = 0 then (0, 0)
      else
        let k0 = 53 + int (bitLen den) - int (bitLen num);
            k = (if fst (scaled num den k0) div snd (scaled num den k0) < 2 ^ 53 then k0 else k0 - 1);
            q = fst (scaled num den k) div snd (scaled num den k);
            r = fst (scaled num den k) mod snd (scaled num den k);
            m = (if snd (scaled num den k) < 2 * r \<or> (2 * r = snd (scaled num den k) \<and> odd q)
                 then q + 1 else q)
        in (m, - k))"

text \<open>The conversion \<open>float64(n)\<close> of a non-negative \<open>int\<close>.\<close>

definition float64_of_int :: "int \<Rightarrow> float64" where
  "float64_of_int n = roundFloat64 n 1"

text \<open>\<open>x / c\<close> and \<open>x * c\<close> for a positive whole constant \<open>c\<close> that \<open>float64\<close> represents exactly.\<close>

definition float64_div :: "float64 \<Rightarrow> int \<Rightarrow> float64" where
  "float64_div x c =
     (case x of (m, e) \<Rightarrow>
        if 0 \<le> e then roundFloat64 (m * 2 ^ nat e) c else roundFloat64 m (c * 2 ^ nat (- e)))"

definition float64_mul :: "float64 \<Rightarrow> int \<Rightarrow> float64" where
  "float64_mul x c =
     (case x of (m, e) \<Rightarrow>
        if 0 \<le> e then roundFloat64 (m * c * 2 ^ nat e) 1 else roundFloat64 (m * c) (2 ^ nat (- e)))"

text \<open>The conversion \<open>int(x)\<close>, which truncates.\<close>

definition float64_to_int :: "float64 \<Rightarrow> int" where
  "float64_to_int x = (case x of (m, e) \<Rightarrow> if 0 \<le> e then m * 2 ^ nat e else m div 2 ^ nat (- e))"

text \<open>
  The duration statements of \<open>AudioStreamHandler\<close>: the PCM size is the WAV size less the
  44 bytes of header, not below 0, and the duration is
  \<open>int((float64(audioDataSize) / 32000.0) * 1000)\<close>.
\<close>

definition audioDurationMs :: "string \<Rightarrow> int" where
  "audioDurationMs audioData =
     (let audioDataSize = int (length audioData) - 44;
          audioDataSize = (if audioDataSize < 0 then 0 else audioDataSize)
      in float64_to_int (float64_mul (float64_div (float64_of_int audioDataSize) 32000) 1000))"

section \<open>Values, errors and the world outside the handlers\<close>

text \<open>
  A value built from \<open>map[string]interface{}\<close>, slices, strings and ints, as the handlers
  hand it to \<open>encoding/json\<close>.  A Go map has no order; the pairs of \<open>JObj\<close> are listed in
  the order of the source text.
\<close>

datatype json = JNull | JInt int | JStr string | JArr "json list" | JObj "(string \<times> json) list"

text \<open>
  A Go \<open>error\<close>: one that came from outside (the network, the SQL engine), one made by
  \<open>fmt.Errorf\<close> with a message around another error (\<open>%w\<close>), and the \<open>task flow not found\<close>
  error of \<open>DeleteTaskFlow\<close>.
\<close>

datatype error = External string | Errorf string error | TaskFlowNotFound int

text \<open>
  A \<open>time.Time\<close> is modelled by its \<open>UnixMilli()\<close>; \<open>zeroTime\<close> is the zero value of the
  type (1 January of the year 1).
\<close>

type_synonym time = int

definition zeroTime :: time where
  "zeroTime = - 62135596800000"

text \<open>The four prompts that \<open>processTaskMode\<close> sends through \<open>callOllamaSimple\<close>.\<close>

datatype prompt = TriggerPrompt | MatchPrompt | ModelSelectionPrompt | HeadlinePrompt

text \<open>
  What the handlers get from outside the repository.  The first six fields are the
  outcomes of the functions that only wrap one HTTP exchange with an upstream service:
  the text or bytes of the answer, or an error.  A prompt is a fixed template around the
  values inserted into it, so an LLM call is given by the kind of the prompt and those
  values.  \<open>modeDetection\<close> is the exchange inside \<open>determineMode\<close> (an error when the POST
  or the decoding of the answer fails).  The last three fields are library functions:
  \<open>json.Marshal\<close>, \<open>strings.ToLower\<close> (which maps by the Unicode case tables) and
  \<open>base64.StdEncoding.EncodeToString\<close>.
\<close>

record env =
  transcribeAudio :: "string \<Rightarrow> error + string"
  modeDetection :: "string \<Rightarrow> error + string"
  processChatMode :: "string \<Rightarrow> error + string"
  callOllamaSimple :: "prompt \<Rightarrow> string list \<Rightarrow> error + string"
  synthesizeSpeech :: "string \<Rightarrow> error + string"
  analyzeImageWithLLaVA :: "string \<Rightarrow> string \<Rightarrow> error + string"
  json_Marshal :: "json \<Rightarrow> error + string"
  strings_ToLower :: "string \<Rightarrow> string"
  base64_EncodeToString :: "string \<Rightarrow> string"

text \<open>
  An HTTP request as a handler reads it: \<open>Header\<close> is \<open>r.Header.Get\<close> (the empty string
  for a header that is absent) and \<open>Body\<close> is what reading the body gives.
\<close>

record 'b request =
  Header :: "string \<Rightarrow> string"
  Body :: 'b

text \<open>
  The body of a JSON endpoint after \<open>io.ReadAll\<close> and \<open>json.Unmarshal\<close>: the read failed,
  the bytes were no JSON for the request type, or they decoded to a request.
\<close>

datatype 'a body = ReadFailed | Malformed | Decoded 'a

section \<open>Types of packages \<open>models\<close> and \<open>database\<close>\<close>

record InferenceData =
  Boxes :: "(int \<times> int \<times> int \<times> int \<times> int \<times> int) list"
  Classes :: "(int \<times> int) list"
  ClassesName :: "string list"

text \<open>The temperature is a \<open>float64\<close> that is only stored: it is kept as its 64 bits.\<close>

record SensorData =
  Temperature :: "64 word option"
  Humidity :: "int option"
  CO2 :: "int option"




record NotificationResponse =
  Notification_Code :: int

record ImageAnalyzerRequest =
  Img :: string
  Prompt :: string
  AudioTxt :: string
  Type :: int

record ImageAnalyzerResponseData =
  Data_State :: int
  Data_Type :: int
  Data_Audio :: "string option"
  Data_Img :: "string option"

record ImageAnalyzerResponse =
  Code :: int
  Data :: ImageAnalyzerResponseData

text \<open>
  A TEXT column that holds JSON.  \<open>Encoded v\<close> is a text that \<open>json.Unmarshal\<close> decodes to
  \<open>v\<close>, as the text that \<open>json.Marshal\<close> gives for \<open>v\<close> is; \<open>Text s\<close> is a text \<open>s\<close> that
  \<open>json.Unmarshal\<close> rejects for the type of the column.
\<close>

datatype 'a json_text = Encoded 'a | Text string

text \<open>
  Modelled from the spec: the \<open>ModelType\<close> field of \<open>TaskFlow\<close>.  The handlers write and
  read it; the \<open>TaskFlow\<close> of \<open>database.go\<close> is of an earlier date and has no such
  field.  It is the "selected on-device model kind" of the spec's task flow, stored and
  read back like the other columns.
\<close>

record TaskFlow =
  ID :: int
  DeviceEUI :: string
  Name :: string
  Headline :: string
  TriggerCondition :: string
  TargetObjects :: "string list"
  Actions :: "string list"
  ModelType :: int
  CreatedAt :: time
  UpdatedAt :: time

record NotificationEvent =
  Event_ID :: int
  Event_RequestID :: string
  Event_DeviceEUI :: string
  Event_Timestamp :: int
  Event_Text :: string
  Event_Img :: string
  Event_InferenceData :: "InferenceData json_text"
  Event_SensorData :: "SensorData json_text"
  Event_CreatedAt :: time

text \<open>A row of table \<open>task_flows\<close>.\<close>

record task_flow_row =
  col_id :: int
  col_device_eui :: string
  col_name :: string
  col_headline :: string
  col_trigger_condition :: string
  col_target_objects :: "string list json_text"
  col_actions :: "string list json_text"
  col_model_type :: int
  col_created_at :: time
  col_updated_at :: time

text \<open>
  The database: the rows of the two tables in the order of their insertion, the largest
  id that each table has given out (\<open>AUTOINCREMENT\<close>), and \<open>faults\<close>, which says for each
  of the statements to come whether the SQL engine fails it (none fails once the list is
  used up).
\<close>

record store =
  task_flows :: "task_flow_row list"
  task_flows_seq :: int
  notification_events :: "NotificationEvent list"
  notification_events_seq :: int
  faults :: "bool list"

section \<open>Package \<open>database\<close>\<close>

text \<open>The SQL engine takes the next statement: whether it fails, and the store afterwards.\<close>

definition nextStatement :: "store \<Rightarrow> bool \<times> store" where
  "nextStatement db =
     (case faults db of [] \<Rightarrow> (False, db) | failed # rest \<Rightarrow> (failed, db\<lparr>faults := rest\<rparr>))"

text \<open>
  \<open>SaveTaskFlow\<close> inserts a row and sets \<open>ID\<close>, \<open>CreatedAt\<close> and \<open>UpdatedAt\<close> of the task
  flow it was given; \<open>now\<close> is \<open>time.Now()\<close>.  \<open>json.Marshal\<close> of a slice of strings does
  not fail.  The id of the new row is one more than the largest id the table has had.
\<close>

definition SaveTaskFlow :: "time \<Rightarrow> TaskFlow \<Rightarrow> store \<Rightarrow> (error + TaskFlow) \<times> store" where
  "SaveTaskFlow now taskFlow db =
     (let targetObjectsJSON = Encoded (TargetObjects taskFlow);
          actionsJSON = Encoded (Actions taskFlow);
          (failed, db) = nextStatement db
      in if failed then (Inl (Errorf ''failed to insert task flow'' (External ''db.Exec'')), db)
         else
           let ident = max (task_flows_seq db) (foldr max (map col_id (task_flows db)) 0) + 1;
               row = \<lparr>col_id = ident, col_device_eui = DeviceEUI taskFlow, col_name = Name taskFlow,
                      col_headline = Headline taskFlow,
                      col_trigger_condition = TriggerCondition taskFlow,
                      col_target_objects = targetObjectsJSON, col_actions = actionsJSON,
                      col_model_type = ModelType taskFlow,
                      col_created_at = now, col_updated_at = now\<rparr>
           in (Inr (taskFlow\<lparr>ID := ident, CreatedAt := now, UpdatedAt := now\<rparr>),
               db\<lparr>task_flows := task_flows db @ [row], task_flows_seq := ident\<rparr>))"

text \<open>
  One row scanned into a \<open>TaskFlow\<close>: a JSON column that does not parse gives a warning
  and the empty slice.
\<close>

definition scanTaskFlow :: "task_flow_row \<Rightarrow> TaskFlow" where
  "scanTaskFlow row =
     \<lparr>ID = col_id row, DeviceEUI = col_device_eui row, Name = col_name row,
      Headline = col_headline row, TriggerCondition = col_trigger_condition row,
      TargetObjects = (case col_target_objects row of Encoded v \<Rightarrow> v | Text _ \<Rightarrow> []),
      Actions = (case col_actions row of Encoded v \<Rightarrow> v | Text _ \<Rightarrow> []),
      ModelType = col_model_type row,
      CreatedAt = col_created_at row, UpdatedAt = col_updated_at row\<rparr>"

text \<open>
  \<open>GetTaskFlowsByDevice\<close>: the rows of the device, \<open>ORDER BY created_at DESC\<close> (rows of
  one instant stay in the order of their insertion).  The error of the function is the
  error of the query; the columns of a row have the types that \<open>rows.Scan\<close> asks for.
\<close>

definition GetTaskFlowsByDevice :: "string \<Rightarrow> store \<Rightarrow> (error + TaskFlow list) \<times> store" where
  "GetTaskFlowsByDevice deviceEUI db =
     (let (failed, db) = nextStatement db
      in if failed then (Inl (Errorf ''failed to query task flows'' (External ''db.Query'')), db)
         else (Inr (map scanTaskFlow
                      (sort_key (\<lambda>row. - col_created_at row)
                         (filter (\<lambda>row. col_device_eui row = deviceEUI) (task_flows db)))),
               db))"

text \<open>\<open>DeleteTaskFlow\<close>: an error when the statement fails or when it deletes no row.\<close>

definition DeleteTaskFlow :: "int \<Rightarrow> store \<Rightarrow> error option \<times> store" where
  "DeleteTaskFlow ident db =
     (let (failed, db) = nextStatement db
      in if failed then (Some (Errorf ''failed to delete task flow'' (External ''db.Exec'')), db)
         else
           let rows = length (filter (\<lambda>row. col_id row = ident) (task_flows db))
           in if rows = 0 then (Some (TaskFlowNotFound ident), db)
              else (None, db\<lparr>task_flows := filter (\<lambda>row. col_id row \<noteq> ident) (task_flows db)\<rparr>))"


section \<open>The voice handler\<close>

text \<open>
  \<open>determineMode\<close>: a failed exchange with the LLM gives chat mode; otherwise the response
  is parsed.
\<close>

definition determineMode :: "env \<Rightarrow> string \<Rightarrow> int" where
  "determineMode env transcription =
     (case modeDetection env transcription of
        Inl err \<Rightarrow> 0
      | Inr response \<Rightarrow> parseMode response)"

text \<open>The loop of \<open>processTaskMode\<close> over the old tasks: a failed delete is logged, no more.\<close>

fun deleteOldTasks :: "TaskFlow list \<Rightarrow> store \<Rightarrow> store" where
  "deleteOldTasks [] db = db"
| "deleteOldTasks (oldTask # oldTasks) db =
     deleteOldTasks oldTasks (snd (DeleteTaskFlow (ID oldTask) db))"

definition processTaskMode ::
    "env \<Rightarrow> time \<Rightarrow> string \<Rightarrow> int \<Rightarrow> string \<Rightarrow> store \<Rightarrow> (error + string) \<times> store" where
  "processTaskMode env now transcription mode deviceEUI db =
     (case callOllamaSimple env TriggerPrompt [transcription] of
        Inl err \<Rightarrow> (Inl (Errorf ''failed to extract trigger'' err), db)
      | Inr trigger \<Rightarrow>
          let trigger = cleanLLMResponse trigger;
              targetObject = (case callOllamaSimple env MatchPrompt [trigger] of
                                Inl err \<Rightarrow> ''person'' | Inr targetObject \<Rightarrow> targetObject);
              targetObject = cleanLLMResponse targetObject;
              targetObject = TrimSpace (strings_ToLower env targetObject);
              modelTypeStr = (case callOllamaSimple env ModelSelectionPrompt [targetObject] of
                                Inl err \<Rightarrow> ''1'' | Inr modelTypeStr \<Rightarrow> modelTypeStr);
              modelTypeStr = cleanLLMResponse modelTypeStr;
              modelType = parseModelType modelTypeStr;
              headline = (case callOllamaSimple env HeadlinePrompt [transcription] of
                            Inl err \<Rightarrow> ''Task created'' | Inr headline \<Rightarrow> headline);
              headline = cleanLLMResponse headline;
              headline = TrimSpace headline;
              (oldTasks, db) = GetTaskFlowsByDevice deviceEUI db;
              db = (case oldTasks of Inl err \<Rightarrow> db | Inr oldTasks \<Rightarrow> deleteOldTasks oldTasks db);
              taskFlow = \<lparr>ID = 0, DeviceEUI = deviceEUI, Name = transcription, Headline = headline,
                           TriggerCondition = trigger, TargetObjects = [targetObject],
                           Actions = [''notify''], ModelType = modelType,
                           CreatedAt = zeroTime, UpdatedAt = zeroTime\<rparr>;
              (saved, db) = SaveTaskFlow now taskFlow db
          in (Inr (''I've created a monitoring task: '' @ headline @ ''. I'll watch for ''
                     @ trigger @ ''.''), db))"

text \<open>
  What a handler leaves on the \<open>http.ResponseWriter\<close>: \<open>http.Error\<close> with a message and a
  status; a status and a value given to \<open>json.NewEncoder(w).Encode\<close> under content type
  \<open>application/json\<close>; the headers set, the status and the bytes written to the body one
  after the other; or a panic of the handler, which ends the request with no response.
\<close>

datatype payload =
    MapPayload json
  | VisionPayload ImageAnalyzerResponse
  | NotificationPayload NotificationResponse

datatype http_response =
    Http_Error string nat
  | Json_Response nat payload
  | Written "(string \<times> string) list" nat string
  | Panic

text \<open>\<open>fmt.Sprintf("%d", n)\<close> for a number that is not negative.\<close>

fun Sprintf_d :: "nat \<Rightarrow> string" where
  "Sprintf_d n =
     (if n < 10 then [char_of (48 + n)] else Sprintf_d (n div 10) @ [char_of (48 + n mod 10)])"

declare Sprintf_d.simps [simp del]

text \<open>The number that a decimal numeral stands for.\<close>

definition decimalValue :: "string \<Rightarrow> nat" where
  "decimalValue s = foldl (\<lambda>acc c. 10 * acc + (of_char c - 48)) 0 s"


section \<open>The task-detail handler\<close>

definition TFModuleTypeAICamera :: string where "TFModuleTypeAICamera = ''ai camera''"
definition TFModuleTypeImageAnalyzer :: string where "TFModuleTypeImageAnalyzer = ''image analyzer''"
definition TFModuleTypeLocalAlarm :: string where "TFModuleTypeLocalAlarm = ''local alarm''"
definition TFModuleTypeSenseCraftAlarm :: string where "TFModuleTypeSenseCraftAlarm = ''sensecraft alarm''"
definition TFModuleAICameraModesInference :: int where "TFModuleAICameraModesInference = 0"
definition TFModuleAICameraModeAppear :: int where "TFModuleAICameraModeAppear = 1"
definition TFModuleAICameraTypePreset :: int where "TFModuleAICameraTypePreset = 2"
definition TFModuleAICameraOutputBoth :: int where "TFModuleAICameraOutputBoth = 1"
definition TFModuleAICameraShutterTriggerConstantly :: int where "TFModuleAICameraShutterTriggerConstantly = 0"
definition TFModuleAICameraConditionsComboAND :: int where "TFModuleAICameraConditionsComboAND = 0"
definition TFModuleImgAnalyzerTypeMonitoring :: int where "TFModuleImgAnalyzerTypeMonitoring = 1"

text \<open>
  A \<open>time.Duration\<close> counts nanoseconds.  \<open>int(d.Seconds())\<close> is the whole seconds of \<open>d\<close>;
  the three defaults are whole seconds, for which the \<open>float64\<close> of \<open>Seconds\<close> is exact.
\<close>

definition Second :: int where "Second = 1000000000"
definition DefaultSilenceDuration :: int where "DefaultSilenceDuration = 5 * Second"
definition DefaultAlarmDuration :: int where "DefaultAlarmDuration = 5 * Second"
definition DefaultNotificationSilence :: int where "DefaultNotificationSilence = 30 * Second"

definition Seconds :: "int \<Rightarrow> int" where
  "Seconds d = d div Second"

text \<open>
  \<open>convertToNodeREDFormat\<close>: the four nodes of the task flow.  \<open>task.TargetObjects[0]\<close>
  panics with an index out of range when the slice is empty; the result is then \<open>None\<close>.
\<close>

definition convertToNodeREDFormat :: "TaskFlow \<Rightarrow> json option" where
  "convertToNodeREDFormat task =
     (let tlid = ID task;
          ctd = CreatedAt task;
          modelType = ModelType task
      in case TargetObjects task of
           [] \<Rightarrow> None
         | target0 # _ \<Rightarrow>
             let aiCameraNode =
                   JObj [(''id'', JInt 1), (''type'', JStr TFModuleTypeAICamera), (''index'', JInt 0),
                         (''params'',
                          JObj [(''modes'', JInt TFModuleAICameraModesInference),
                                (''model_type'', JInt modelType),
                                (''conditions'',
                                 JArr [JObj [(''class'', JStr target0),
                                             (''mode'', JInt TFModuleAICameraModeAppear),
                                             (''type'', JInt TFModuleAICameraTypePreset),
                                             (''num'', JInt 0)]]),
                                (''conditions_combo'', JInt TFModuleAICameraConditionsComboAND),
                                (''silent_period'',
                                 JObj [(''silence_duration'', JInt (Seconds DefaultSilenceDuration))]),
                                (''output_type'', JInt TFModuleAICameraOutputBoth),
                                (''shutter'', JInt TFModuleAICameraShutterTriggerConstantly)]),
                         (''wires'', JArr [JArr [JInt 2]])];
                 imageAnalyzerNode =
                   JObj [(''id'', JInt 2), (''type'', JStr TFModuleTypeImageAnalyzer), (''index'', JInt 1),
                         (''params'',
                          JObj [(''body'',
                                 JObj [(''prompt'', JStr (TriggerCondition task)),
                                       (''type'', JInt TFModuleImgAnalyzerTypeMonitoring),
                                       (''audio_txt'', JStr [])])]),
                         (''wires'', JArr [JArr [JInt 3, JInt 4]])];
                 localAlarmNode =
                   JObj [(''id'', JInt 3), (''type'', JStr TFModuleTypeLocalAlarm), (''index'', JInt 2),
                         (''params'',
                          JObj [(''sound'', JInt 1), (''rgb'', JInt 1), (''img'', JInt 0),
                                (''text'', JInt 0),
                                (''duration'', JInt (Seconds DefaultAlarmDuration))]),
                         (''wires'', JArr [])];
                 sensecraftAlarmNode =
                   JObj [(''id'', JInt 4), (''type'', JStr TFModuleTypeSenseCraftAlarm), (''index'', JInt 3),
                         (''params'',
                          JObj [(''silence_duration'', JInt (Seconds DefaultNotificationSilence))]),
                         (''wires'', JArr [])]
             in Some (JObj [(''type'', JInt 0), (''tlid'', JInt tlid), (''ctd'', JInt ctd),
                            (''tn'', JStr (Headline task)),
                            (''task_flow'',
                             JArr [aiCameraNode, imageAnalyzerNode, localAlarmNode,
                                   sensecraftAlarmNode])]))"

definition TaskDetailHandler :: "unit request \<Rightarrow> store \<Rightarrow> http_response \<times> store" where
  "TaskDetailHandler r db =
     (let deviceEUI = Header r ''API-OBITER-DEVICE-EUI'';
          (taskFlows, db) = GetTaskFlowsByDevice deviceEUI db
      in case taskFlows of
           Inl err \<Rightarrow> (Http_Error ''Failed to retrieve task flows'' 500, db)
         | Inr taskFlows \<Rightarrow>
             if length taskFlows > 0
             then (case convertToNodeREDFormat (hd taskFlows) of
                     None \<Rightarrow> (Panic, db)
                   | Some taskFlowData \<Rightarrow>
                       (Json_Response 200
                          (MapPayload (JObj [(''code'', JInt 200),
                                             (''data'', JObj [(''tl'', taskFlowData)])])),
                        db))
             else (Json_Response 200
                     (MapPayload (JObj [(''code'', JInt 200),
                                        (''data'', JObj [(''tl'', JObj [])])])),
                   db))"

section \<open>The vision handler\<close>

text \<open>The two tests of \<open>VisionHandler\<close> on the lower-cased analysis.\<close>

definition isPositive :: "string \<Rightarrow> bool" where
  "isPositive analysisLower \<longleftrightarrow>
     Contains analysisLower ''yes'' \<or>
     Contains analysisLower ''there is'' \<or>
     Contains analysisLower ''i can see'' \<or>
     Contains analysisLower ''visible'' \<or>
     Contains analysisLower ''present'' \<or>
     Contains analysisLower ''wearing'' \<or>
     Contains analysisLower ''detected''"

definition isNegative :: "string \<Rightarrow> bool" where
  "isNegative analysisLower \<longleftrightarrow>
     Contains analysisLower ''no'' \<or>
     Contains analysisLower ''not'' \<or>
     Contains analysisLower ''cannot'' \<or>
     Contains analysisLower ''can't'' \<or>
     Contains analysisLower ''unable''"

definition VisionHandler :: "env \<Rightarrow> ImageAnalyzerRequest body request \<Rightarrow> http_response" where
  "VisionHandler env r =
     (case Body r of
        ReadFailed \<Rightarrow> Http_Error ''Failed to read request body'' 400
      | Malformed \<Rightarrow> Http_Error ''Invalid JSON'' 400
      | Decoded req \<Rightarrow>
          (if Img req = [] then Http_Error ''No image provided'' 400
           else
             (let prompt = (if Prompt req = [] then ''what's in the picture?'' else Prompt req)
              in (case analyzeImageWithLLaVA env (Img req) prompt of
                    Inl err \<Rightarrow> Http_Error ''Image analysis failed'' 500
                  | Inr analysis \<Rightarrow>
                      (let state =
                             (if Type req = 1
                              then (let analysisLower = strings_ToLower env analysis
                                    in (if isPositive analysisLower \<and> \<not> isNegative analysisLower
                                        then 1 else 0))
                              else 0);
                           audioBase64 =
                             (if AudioTxt req \<noteq> []
                              then (case synthesizeSpeech env (AudioTxt req) of
                                      Inl err \<Rightarrow> None
                                    | Inr audioData \<Rightarrow> Some (base64_EncodeToString env audioData))
                              else None)
                       in Json_Response 200
                            (VisionPayload
                               \<lparr>Code = 200,
                                Data = \<lparr>Data_State = state, Data_Type = Type req,
                                        Data_Audio = audioBase64, Data_Img = None\<rparr>\<rparr>))))))"

section \<open>The notification handler\<close>





section \<open>The parsing rules in the words of the specification\<close>

text \<open>
  The specification describes the two parsers as a scan for the first digit.  These two
  functions follow its words, for comparison with \<open>parseMode\<close> and \<open>parseModelType\<close>: the
  first of the digits \<open>1\<close> and \<open>2\<close> in the text gives the mode, and chat (0) when there
  is none; the first of the digits \<open>0\<close> to \<open>3\<close> gives the model kind, and person (1) when
  there is none.
\<close>

definition modeByFirstOccurrence :: "string \<Rightarrow> int" where
  "modeByFirstOccurrence s =
     (case find (\<lambda>c. c = CHR ''1'' \<or> c = CHR ''2'') s of
        None \<Rightarrow> 0
      | Some c \<Rightarrow> if c = CHR ''1'' then 1 else 2)"

definition kindByFirstOccurrence :: "string \<Rightarrow> int" where
  "kindByFirstOccurrence s =
     (case find (\<lambda>c. c = CHR ''0'' \<or> c = CHR ''1'' \<or> c = CHR ''2'' \<or> c = CHR ''3'') s of
        None \<Rightarrow> 1
      | Some c \<Rightarrow> if c = CHR ''2'' then 2 else if c = CHR ''3'' then 3
                  else if c = CHR ''0'' then 0 else 1)"


section \<open>Reading a value\<close>

text \<open>The value under a key of an object.\<close>

definition jsonField :: "string \<Rightarrow> json \<Rightarrow> json option" where
  "jsonField k j = (case j of JObj kvs \<Rightarrow> map_of kvs k | _ \<Rightarrow> None)"

section \<open>A concrete scenario\<close>

text \<open>
  The stubs of the voice-task scenario of the specification, on which the theorems below
  are run: the transcript is a monitoring request, the classifier answers \<open>1\<close>, the trigger
  extractor \<open>person arrives\<close>, the word matcher \<open>person\<close>, the model selector \<open>1\<close> and
  the headline prompt \<open>Watch for person\<close>.  The synthesised audio is a WAV header with 32
  bytes of samples.  \<open>asciiLower\<close> is \<open>strings.ToLower\<close> on texts of ASCII characters.
\<close>

definition asciiLower :: "string \<Rightarrow> string" where
  "asciiLower s =
     map (\<lambda>c. if 65 \<le> (of_char c :: nat) \<and> (of_char c :: nat) \<le> 90
              then char_of ((of_char c :: nat) + 32) else c) s"

definition scenarioEnv :: env where
  "scenarioEnv =
     \<lparr>transcribeAudio = (\<lambda>audioData. Inr ''notify me when a person arrives''),
      modeDetection = (\<lambda>transcription. Inr ''1''),
      processChatMode = (\<lambda>transcription. Inr ''Hi there.''),
      callOllamaSimple =
        (\<lambda>p args. case p of
                     TriggerPrompt \<Rightarrow> Inr ''person arrives''
                   | MatchPrompt \<Rightarrow> Inr ''person''
                   | ModelSelectionPrompt \<Rightarrow> Inr ''1''
                   | HeadlinePrompt \<Rightarrow> Inr ''Watch for person''),
      synthesizeSpeech = (\<lambda>text. Inr (replicate 76 (CHR 0x00))),
      analyzeImageWithLLaVA = (\<lambda>imageBase64 prompt. Inr ''Yes, there is a person in the frame.''),
      json_Marshal = (\<lambda>v. Inr ''{}''),
      strings_ToLower = asciiLower,
      base64_EncodeToString = (\<lambda>src. src)\<rparr>"

definition scenarioDevice :: string where
  "scenarioDevice = ''2CF7F1C04430000C''"

definition scenarioHeader :: "string \<Rightarrow> string" where
  "scenarioHeader name = (if name = ''API-OBITER-DEVICE-EUI'' then scenarioDevice else [])"

text \<open>An empty database whose engine fails no statement, and one whose engine fails the fourth.\<close>

definition emptyStore :: store where
  "emptyStore =
     \<lparr>task_flows = [], task_flows_seq = 0, notification_events = [],
      notification_events_seq = 0, faults = []\<rparr>"

definition fourthFails :: store where
  "fourthFails = emptyStore\<lparr>faults := [False, False, False, True]\<rparr>"

text \<open>
  Two task requests of the scenario's device, one after the other: the store after the
  first, and the store after the second.
\<close>

definition afterFirstTask :: "store \<Rightarrow> store" where
  "afterFirstTask db =
     snd (processTaskMode scenarioEnv 1000 ''watch the door'' 1 scenarioDevice db)"

definition afterSecondTask :: "store \<Rightarrow> store" where
  "afterSecondTask db =
     snd (processTaskMode scenarioEnv 2000 ''watch the cat'' 1 scenarioDevice (afterFirstTask db))"

text \<open>
  A monitoring request of the vision endpoint, a notification of the device (whose body
  names another device), and a row of \<open>task_flows\<close> whose \<open>target_objects\<close> column is
  no JSON.
\<close>

definition scenarioVisionRequest :: "ImageAnalyzerRequest body request" where
  "scenarioVisionRequest =
     \<lparr>Header = scenarioHeader,
      Body = Decoded \<lparr>Img = ''/9j/4AAQ'', Prompt = ''is there a person?'', AudioTxt = [],
                      Type = 1\<rparr>\<rparr>"


definition brokenRow :: task_flow_row where
  "brokenRow =
     \<lparr>col_id = 7, col_device_eui = scenarioDevice, col_name = ''watch the door'',
      col_headline = ''Watch for person'', col_trigger_condition = ''person arrives'',
      col_target_objects = Text ''[person'', col_actions = Encoded [''notify''],
      col_model_type = 1, col_created_at = 1000, col_updated_at = 1000\<rparr>"

definition brokenStore :: store where
  "brokenStore = emptyStore\<lparr>task_flows := [brokenRow], task_flows_seq := 7\<rparr>"

definition scenarioTask :: TaskFlow where
  "scenarioTask =
     \<lparr>ID = 1, DeviceEUI = scenarioDevice, Name = ''notify me when a person arrives'',
      Headline = ''Watch for person'', TriggerCondition = ''person arrives'',
      TargetObjects = [''person''], Actions = [''notify''], ModelType = 1,
      CreatedAt = 1000, UpdatedAt = 1000\<rparr>"

text \<open>The scenario with another answer of the mode classifier.\<close>

definition classifierSays :: "string \<Rightarrow> env" where
  "classifierSays response = scenarioEnv\<lparr>modeDetection := (\<lambda>transcription. Inr response)\<rparr>"

section \<open>Properties of the string functions\<close>

lemma find_SomeD: "find P xs = Some x \<Longrightarrow> x \<in> set xs \<and> P x"
  by (induction xs) (auto split: if_splits)

lemma Contains_sublist: "Contains s substr \<longleftrightarrow> sublist substr s"
  by (induction s) (auto simp: sublist_Cons_right)

lemma Contains_single: "Contains s [c] \<longleftrightarrow> c \<in> set s"
  by (induction s) auto

lemma spaceRunes_nonempty: "e \<in> set spaceRunes \<Longrightarrow> e \<noteq> []"
  by (auto simp: spaceRunes_def)


lemma spaceWidth_pos:
  assumes "spaceWidth s \<noteq> 0"
  obtains e where "e \<in> set spaceRunes" "prefix e s" "spaceWidth s = length e"
  using assms by (auto simp: spaceWidth_def split: option.splits dest!: find_SomeD)

lemma lastSpaceWidth_pos:
  assumes "lastSpaceWidth s \<noteq> 0"
  obtains e where "e \<in> set spaceRunes" "suffix e s" "lastSpaceWidth s = length e"
  using assms by (auto simp: lastSpaceWidth_def split: option.splits dest!: find_SomeD)

text \<open>Trimming white space removes a prefix and a suffix made of bytes of white-space runes.\<close>

lemma TrimLeftSpace_split:
  "\<exists>p. s = p @ TrimLeftSpace s \<and> set p \<subseteq> set (concat spaceRunes)"
proof (induction s rule: TrimLeftSpace.induct)
  case (1 s)
  show ?case
  proof (cases "spaceWidth s = 0")
    case True
    then show ?thesis by (subst TrimLeftSpace.simps) simp
  next
    case False
    then obtain e where e: "e \<in> set spaceRunes" "prefix e s" "spaceWidth s = length e"
      by (rule spaceWidth_pos)
    from e(2) obtain t where t: "s = e @ t" by (auto simp: prefix_def)
    from "1.IH"[OF False] obtain p where
      p: "drop (spaceWidth s) s = p @ TrimLeftSpace (drop (spaceWidth s) s)"
         "set p \<subseteq> set (concat spaceRunes)"
      by blast
    have tl: "TrimLeftSpace s = TrimLeftSpace (drop (spaceWidth s) s)"
      using False by (subst TrimLeftSpace.simps) simp
    have "s = (e @ p) @ TrimLeftSpace s"
      using p(1) t e(3) tl by simp
    moreover have "set (e @ p) \<subseteq> set (concat spaceRunes)"
      using e(1) p(2) by auto
    ultimately show ?thesis by blast
  qed
qed

lemma TrimRightSpace_split:
  "\<exists>p. s = TrimRightSpace s @ p \<and> set p \<subseteq> set (concat spaceRunes)"
proof (induction s rule: TrimRightSpace.induct)
  case (1 s)
  show ?case
  proof (cases "lastSpaceWidth s = 0")
    case True
    then show ?thesis by (subst TrimRightSpace.simps) simp
  next
    case False
    then obtain e where e: "e \<in> set spaceRunes" "suffix e s" "lastSpaceWidth s = length e"
      by (rule lastSpaceWidth_pos)
    from e(2) obtain t where t: "s = t @ e" by (auto simp: suffix_def)
    let ?s' = "take (length s - lastSpaceWidth s) s"
    from "1.IH"[OF False] obtain p where
      p: "?s' = TrimRightSpace ?s' @ p" "set p \<subseteq> set (concat spaceRunes)"
      by blast
    have tl: "TrimRightSpace s = TrimRightSpace ?s'"
      using False by (subst TrimRightSpace.simps) simp
    have s': "?s' = t" using t e(3) by simp
    have "s = TrimRightSpace s @ (p @ e)"
      using p(1) t s' tl by simp
    moreover have "set (p @ e) \<subseteq> set (concat spaceRunes)"
      using e(1) p(2) by auto
    ultimately show ?thesis by blast
  qed
qed

lemma TrimSpace_split:
  "\<exists>p q. s = p @ TrimSpace s @ q \<and> set p \<subseteq> set (concat spaceRunes)
         \<and> set q \<subseteq> set (concat spaceRunes)"
proof -
  obtain p where p: "s = p @ TrimLeftSpace s" "set p \<subseteq> set (concat spaceRunes)"
    using TrimLeftSpace_split by blast
  obtain q where q: "TrimLeftSpace s = TrimRightSpace (TrimLeftSpace s) @ q"
      "set q \<subseteq> set (concat spaceRunes)"
    using TrimRightSpace_split by blast
  have "s = p @ TrimSpace s @ q"
    using p(1) q(1) by (simp add: TrimSpace_def)
  with p(2) q(2) show ?thesis by blast
qed

text \<open>A byte that belongs to no white-space rune is in the trimmed text if it is in the text.\<close>

lemma TrimSpace_mem:
  assumes "c \<notin> set (concat spaceRunes)"
  shows "c \<in> set (TrimSpace s) \<longleftrightarrow> c \<in> set s"
proof -
  obtain p q where pq: "s = p @ TrimSpace s @ q" "set p \<subseteq> set (concat spaceRunes)"
      "set q \<subseteq> set (concat spaceRunes)"
    using TrimSpace_split by blast
  from pq(1) have "set s = set p \<union> set (TrimSpace s) \<union> set q"
    by (metis set_append Un_assoc)
  moreover from pq(2,3) assms have "c \<notin> set p" "c \<notin> set q" by auto
  ultimately show ?thesis by auto
qed


lemma digit_no_space:
  "CHR ''0'' \<notin> set (concat spaceRunes)" "CHR ''1'' \<notin> set (concat spaceRunes)"
  "CHR ''2'' \<notin> set (concat spaceRunes)" "CHR ''3'' \<notin> set (concat spaceRunes)"
  by (simp_all add: spaceRunes_def)

lemma parseMode_eq:
  "parseMode s = (if CHR ''1'' \<in> set s then 1 else if CHR ''2'' \<in> set s then 2 else 0)"
  by (simp add: parseMode_def Let_def Contains_single TrimSpace_mem[OF digit_no_space(2)]
        TrimSpace_mem[OF digit_no_space(3)])

lemma parseModelType_eq:
  "parseModelType s =
     (if CHR ''2'' \<in> set s then 2 else if CHR ''3'' \<in> set s then 3
      else if CHR ''0'' \<in> set s then 0 else 1)"
  by (simp add: parseModelType_def Contains_single)


lemma lastSpaceWidth_0_iff: "lastSpaceWidth s = 0 \<longleftrightarrow> (\<forall>e \<in> set spaceRunes. \<not> suffix e s)"
proof (cases "find (\<lambda>e. suffix e s) spaceRunes")
  case None
  then have "\<forall>e \<in> set spaceRunes. \<not> suffix e s" by (simp add: find_None_iff)
  with None show ?thesis by (simp add: lastSpaceWidth_def)
next
  case (Some e)
  then have "e \<in> set spaceRunes" "suffix e s" by (auto dest: find_SomeD)
  moreover from this have "e \<noteq> []" by (simp add: spaceRunes_nonempty)
  ultimately show ?thesis using Some by (auto simp: lastSpaceWidth_def)
qed







lemma length_TrimLeft: "length (TrimLeft s cs) \<le> length s"
  by (simp add: TrimLeft_def length_dropWhile_le)

lemma length_TrimRight: "length (TrimRight s cs) \<le> length s"
  unfolding TrimRight_def by (metis length_dropWhile_le length_rev)

lemma length_Trim: "length (Trim s cs) \<le> length s"
  unfolding Trim_def using length_TrimLeft length_TrimRight order_trans by blast





section \<open>The mode parser (claim C2)\<close>

text \<open>
  Claim C2, as amended.  For every output \<open>s\<close> of the classifier LLM, \<open>determineMode\<close> gives
  mode 1 when \<open>s\<close> contains the digit \<open>1\<close>, wherever it stands, also after a \<open>2\<close>; mode 2
  when \<open>s\<close> contains the digit \<open>2\<close> and no \<open>1\<close>; and mode 0 (chat) when \<open>s\<close> contains
  neither digit.
\<close>

theorem C2_determineMode_precedence:
  assumes "modeDetection env transcription = Inr s"
  shows "determineMode env transcription =
           (if CHR ''1'' \<in> set s then 1 else if CHR ''2'' \<in> set s then 2 else 0)"
  using assms by (simp add: determineMode_def parseMode_eq)

theorem C2_determineMode_precedence_witness:
  "modeDetection (classifierSays ''mode 2'') ''hello'' = Inr ''mode 2''
   \<and> determineMode (classifierSays ''mode 2'') ''hello'' = 2"
proof -
  have h: "modeDetection (classifierSays ''mode 2'') ''hello'' = Inr ''mode 2''"
    by (simp add: classifierSays_def scenarioEnv_def)
  show ?thesis
    using h C2_determineMode_precedence [OF h] by simp
qed

text \<open>
  The claim as it was stated fails: in the output \<open>21\<close> the first of the two digits is
  \<open>2\<close>, and the mode is 1.
\<close>

theorem C2_first_occurrence_counterexample:
  "modeDetection (classifierSays ''21'') ''hello'' = Inr ''21''
   \<and> modeByFirstOccurrence ''21'' = 2
   \<and> determineMode (classifierSays ''21'') ''hello'' = 1"
  by (simp add: classifierSays_def scenarioEnv_def determineMode_def parseMode_eq
        modeByFirstOccurrence_def)

section \<open>The model selector (claim C7)\<close>

lemma kindByFirstOccurrence_single:
  assumes "\<forall>c \<in> set s. \<forall>d \<in> set s. c \<in> set ''0123'' \<longrightarrow> d \<in> set ''0123'' \<longrightarrow> c = d"
  shows "parseModelType s = kindByFirstOccurrence s"
proof (cases "find (\<lambda>c. c = CHR ''0'' \<or> c = CHR ''1'' \<or> c = CHR ''2'' \<or> c = CHR ''3'') s")
  case None
  then have "CHR ''0'' \<notin> set s" "CHR ''2'' \<notin> set s" "CHR ''3'' \<notin> set s"
    by (auto simp: find_None_iff)
  with None show ?thesis
    by (simp add: parseModelType_eq kindByFirstOccurrence_def)
next
  case (Some c)
  then have c: "c \<in> set s" "c \<in> set ''0123''"
    by (auto dest: find_SomeD)
  have only: "d \<in> set s \<Longrightarrow> d \<in> set ''0123'' \<Longrightarrow> c = d" for d
    using assms c by blast
  have 2: "CHR ''2'' \<in> set s \<longleftrightarrow> c = CHR ''2''"
    using only[of "CHR ''2''"] c(1) by fastforce
  have 3: "CHR ''3'' \<in> set s \<longleftrightarrow> c = CHR ''3''"
    using only[of "CHR ''3''"] c(1) by fastforce
  have 0: "CHR ''0'' \<in> set s \<longleftrightarrow> c = CHR ''0''"
    using only[of "CHR ''0''"] c(1) by fastforce
  show ?thesis
    unfolding parseModelType_eq kindByFirstOccurrence_def Some 2 3 0 by simp
qed

text \<open>
  Claim C7, as amended.  For every normalised output \<open>s\<close> of the model selector the kind
  follows the precedence 2, 3, 0, else 1: pet (2) when \<open>s\<close> contains the digit \<open>2\<close>,
  otherwise gesture (3) when it contains \<open>3\<close>, otherwise cloud (0) when it contains \<open>0\<close>,
  otherwise person (1).  This is the kind of the first of these digits in \<open>s\<close> whenever no
  two different digits among \<open>0\<close>, \<open>1\<close>, \<open>2\<close> and \<open>3\<close> occur in \<open>s\<close>.
\<close>

theorem C7_parseModelType_precedence:
  "parseModelType s =
     (if CHR ''2'' \<in> set s then 2 else if CHR ''3'' \<in> set s then 3
      else if CHR ''0'' \<in> set s then 0 else 1)
   \<and> ((\<forall>c \<in> set s. \<forall>d \<in> set s. c \<in> set ''0123'' \<longrightarrow> d \<in> set ''0123'' \<longrightarrow> c = d)
        \<longrightarrow> parseModelType s = kindByFirstOccurrence s)"
  using parseModelType_eq kindByFirstOccurrence_single by blast

theorem C7_parseModelType_precedence_witness:
  "parseModelType ''model 2'' = 2 \<and> kindByFirstOccurrence ''model 2'' = 2"
proof -
  have h: "\<forall>c \<in> set ''model 2''. \<forall>d \<in> set ''model 2''.
             c \<in> set ''0123'' \<longrightarrow> d \<in> set ''0123'' \<longrightarrow> c = d"
    by simp
  have "parseModelType ''model 2'' = 2"
    using C7_parseModelType_precedence [of "''model 2''"] by simp
  moreover have "parseModelType ''model 2'' = kindByFirstOccurrence ''model 2''"
    using C7_parseModelType_precedence [of "''model 2''"] h by blast
  ultimately show ?thesis by simp
qed

text \<open>
  The claim as it was stated fails: in the output \<open>32\<close> the first digit is \<open>3\<close>
  (gesture), and the kind is 2 (pet).
\<close>

theorem C7_first_occurrence_counterexample:
  "parseModelType ''32'' = 2 \<and> kindByFirstOccurrence ''32'' = 3"
  by (simp add: parseModelType_eq kindByFirstOccurrence_def)

section \<open>Normalisation (claim C8)\<close>






section \<open>Properties of the floating-point model\<close>

lemma div_ge:
  fixes N D a :: int
  assumes "0 < D" "a * D \<le> N"
  shows "a \<le> N div D"
proof -
  have e: "D * (N div D) + N mod D = N" by (rule mult_div_mod_eq)
  have "N mod D < D" using assms(1) by simp
  with e have "N < D * (N div D) + D" by linarith
  also have "\<dots> = (N div D + 1) * D" by (simp add: algebra_simps)
  finally have "a * D < (N div D + 1) * D" using assms(2) by simp
  with assms(1) have "a < N div D + 1" by (simp add: mult_less_cancel_right_pos)
  then show ?thesis by simp
qed

lemma div_lt:
  fixes N D a :: int
  assumes "0 < D" "N < a * D"
  shows "N div D < a"
proof -
  have e: "D * (N div D) + N mod D = N" by (rule mult_div_mod_eq)
  have "0 \<le> N mod D" using assms(1) by simp
  with e have "D * (N div D) \<le> N" by linarith
  then have "(N div D) * D < a * D" using assms(2) by (simp add: mult.commute)
  with assms(1) show ?thesis by (simp add: mult_less_cancel_right_pos)
qed

lemma bitLen_bounds:
  "0 < n \<Longrightarrow> 0 < bitLen n \<and> 2 ^ (bitLen n - 1) \<le> n \<and> n < 2 ^ bitLen n"
proof (induction n rule: bitLen.induct)
  case (1 n)
  show ?case
  proof (cases "n = 1")
    case True
    have "bitLen (1::int) = 1"
      by (subst bitLen.simps, subst bitLen.simps) simp
    with True show ?thesis by simp
  next
    case False
    with "1.prems" have h: "0 < n div 2" by simp
    from "1.prems" have nn: "\<not> n \<le> 0" by simp
    from "1.IH"[OF nn h] have
      ih: "0 < bitLen (n div 2)" "2 ^ (bitLen (n div 2) - 1) \<le> n div 2" "n div 2 < 2 ^ bitLen (n div 2)"
      by simp_all
    have b: "bitLen n = Suc (bitLen (n div 2))"
      using nn by (subst bitLen.simps) simp
    from ih(1) have e: "2 ^ bitLen (n div 2) = (2::int) * 2 ^ (bitLen (n div 2) - 1)"
      by (cases "bitLen (n div 2)") simp_all
    have "2 ^ (bitLen n - 1) \<le> n"
      using ih(2) e unfolding b by simp
    moreover have "n < 2 ^ bitLen n"
      using ih(3) unfolding b by simp
    ultimately show ?thesis using b by simp
  qed
qed

lemma scaled_pos:
  "0 < num \<Longrightarrow> 0 < den \<Longrightarrow> 0 < fst (scaled num den k) \<and> 0 < snd (scaled num den k)"
  by (simp add: scaled_def)

text \<open>Scaling by one power of two less halves the fraction.\<close>

lemma scaled_step:
  "fst (scaled num den k) * snd (scaled num den (k - 1))
     = 2 * fst (scaled num den (k - 1)) * snd (scaled num den k)"
proof (cases "1 \<le> k")
  case True
  then have "nat k = Suc (nat (k - 1))" by simp
  with True show ?thesis by (simp add: scaled_def)
next
  case False
  then have "nat (- (k - 1)) = Suc (nat (- k))" by simp
  with False show ?thesis by (cases "k = 0") (simp_all add: scaled_def)
qed

text \<open>With the first choice of the exponent the fraction lies between \<open>2 ^ 52\<close> and \<open>2 ^ 54\<close>.\<close>

lemma scaled_first:
  assumes "0 < num" "0 < den"
  defines "k0 \<equiv> 53 + int (bitLen den) - int (bitLen num)"
  shows "2 ^ 52 * snd (scaled num den k0) \<le> fst (scaled num den k0)"
    and "fst (scaled num den k0) < 2 ^ 54 * snd (scaled num den k0)"
proof -
  let ?a = "bitLen num" and ?b = "bitLen den"
  from bitLen_bounds[OF assms(1)] have a: "0 < ?a" "2 ^ (?a - 1) \<le> num" "num < 2 ^ ?a"
    by simp_all
  from bitLen_bounds[OF assms(2)] have b: "0 < ?b" "2 ^ (?b - 1) \<le> den" "den < 2 ^ ?b"
    by simp_all
  have lower_upper: "2 ^ 52 * snd (scaled num den k0) \<le> fst (scaled num den k0)
      \<and> fst (scaled num den k0) < 2 ^ 54 * snd (scaled num den k0)"
  proof (cases "0 \<le> k0")
    case True
    define n where "n = nat k0"
    have n: "?a + n = 53 + ?b" using True by (simp add: n_def k0_def)
    have s: "scaled num den k0 = (num * 2 ^ n, den)" using True by (simp add: scaled_def n_def)
    have "2 ^ 52 * den \<le> (2::int) ^ 52 * 2 ^ ?b" using b(3) by simp
    also have "\<dots> = 2 ^ (52 + ?b)" by (simp add: power_add)
    also have "52 + ?b = (?a - 1) + n" using n a(1) by simp
    also have "(2::int) ^ ((?a - 1) + n) = 2 ^ (?a - 1) * 2 ^ n" by (simp add: power_add)
    also have "\<dots> \<le> num * 2 ^ n" using a(2) by (simp add: mult_right_mono)
    finally have lo: "2 ^ 52 * den \<le> num * 2 ^ n" .
    have "num * 2 ^ n < 2 ^ ?a * (2::int) ^ n" using a(3) by simp
    also have "\<dots> = 2 ^ (?a + n)" by (simp add: power_add)
    also have "?a + n = 54 + (?b - 1)" using n b(1) by simp
    also have "(2::int) ^ (54 + (?b - 1)) = 2 ^ 54 * 2 ^ (?b - 1)" by (simp add: power_add)
    also have "\<dots> \<le> 2 ^ 54 * den" using b(2) by simp
    finally have up: "num * 2 ^ n < 2 ^ 54 * den" .
    from lo up show ?thesis unfolding s by simp
  next
    case False
    define n where "n = nat (- k0)"
    have n: "?a = 53 + ?b + n" using False by (simp add: n_def k0_def)
    have s: "scaled num den k0 = (num, den * 2 ^ n)" using False by (simp add: scaled_def n_def)
    have "2 ^ 52 * (den * 2 ^ n) \<le> (2::int) ^ 52 * (2 ^ ?b * 2 ^ n)"
      using b(3) by (simp add: mult_right_mono)
    also have "\<dots> = 2 ^ (52 + ?b + n)" by (simp add: power_add)
    also have "52 + ?b + n = ?a - 1" using n by simp
    also have "(2::int) ^ (?a - 1) \<le> num" by (rule a(2))
    finally have lo: "2 ^ 52 * (den * 2 ^ n) \<le> num" .
    have "num < 2 ^ ?a" by (rule a(3))
    also have "?a = 54 + (?b - 1) + n" using n b(1) by simp
    also have "(2::int) ^ (54 + (?b - 1) + n) = 2 ^ 54 * (2 ^ (?b - 1) * 2 ^ n)"
      by (simp add: power_add)
    also have "\<dots> \<le> 2 ^ 54 * (den * 2 ^ n)" using b(2) by (simp add: mult_right_mono)
    finally have up: "num < 2 ^ 54 * (den * 2 ^ n)" .
    from lo up show ?thesis unfolding s by simp
  qed
  then show "2 ^ 52 * snd (scaled num den k0) \<le> fst (scaled num den k0)"
    and "fst (scaled num den k0) < 2 ^ 54 * snd (scaled num den k0)"
    by simp_all
qed

lemma div_mult_le_int:
  fixes N D :: int
  assumes "0 < D"
  shows "(N div D) * D \<le> N"
proof -
  have e: "D * (N div D) + N mod D = N" by (rule mult_div_mod_eq)
  have "0 \<le> N mod D" using assms by simp
  with e have "D * (N div D) \<le> N" by linarith
  then show ?thesis by (simp add: mult.commute)
qed

text \<open>
  \<open>roundFloat64\<close> rounds to the nearest value with a significand of 53 bits: for the
  result \<open>(m, e)\<close> and the fraction \<open>N / D\<close>, which is \<open>num / den\<close> divided by \<open>2 ^ e\<close>, the
  significand \<open>m\<close> lies between \<open>2 ^ 52\<close> and \<open>2 ^ 53\<close> and is an integer nearest to
  \<open>N / D\<close>, the even one of the two when \<open>N / D\<close> lies half way.
\<close>

lemma roundFloat64_nearest:
  fixes num den m e :: int
  assumes pos: "0 < num" "0 < den"
    and res: "roundFloat64 num den = (m, e)"
  defines "N \<equiv> fst (scaled num den (- e))" and "D \<equiv> snd (scaled num den (- e))"
  shows "2 ^ 52 \<le> m \<and> m \<le> 2 ^ 53
         \<and> \<bar>2 * (m * D - N)\<bar> \<le> D
         \<and> (\<bar>2 * (m * D - N)\<bar> = D \<longrightarrow> even m)"
proof -
  define k0 where "k0 = 53 + int (bitLen den) - int (bitLen num)"
  define N0 where "N0 = fst (scaled num den k0)"
  define D0 where "D0 = snd (scaled num den k0)"
  define k where "k = (if N0 div D0 < 2 ^ 53 then k0 else k0 - 1)"
  define q where "q = fst (scaled num den k) div snd (scaled num den k)"
  define r where "r = fst (scaled num den k) mod snd (scaled num den k)"
  have "roundFloat64 num den =
          ((if snd (scaled num den k) < 2 * r \<or> (2 * r = snd (scaled num den k) \<and> odd q)
            then q + 1 else q), - k)"
    using pos(1) unfolding roundFloat64_def Let_def q_def r_def k_def N0_def D0_def k0_def
    by simp
  with res have m_e:
    "m = (if snd (scaled num den k) < 2 * r \<or> (2 * r = snd (scaled num den k) \<and> odd q)
          then q + 1 else q)" "e = - k"
    by simp_all
  have ND: "N = fst (scaled num den k)" "D = snd (scaled num den k)"
    by (simp_all add: N_def D_def m_e(2))
  have Dpos: "0 < D" and D0pos: "0 < D0"
    using scaled_pos[OF pos] by (simp_all add: ND D0_def)
  have first: "2 ^ 52 * D0 \<le> N0" "N0 < 2 ^ 54 * D0"
    unfolding N0_def D0_def k0_def by (rule scaled_first[OF pos])+
  have range: "2 ^ 52 * D \<le> N \<and> N < 2 ^ 53 * D"
  proof (cases "N0 div D0 < 2 ^ 53")
    case True
    then have kk: "k = k0" by (simp add: k_def)
    have "N0 < 2 ^ 53 * D0"
    proof (rule ccontr)
      assume "\<not> N0 < 2 ^ 53 * D0"
      then have "2 ^ 53 * D0 \<le> N0" by simp
      then have "2 ^ 53 \<le> N0 div D0" by (rule div_ge[OF D0pos])
      with True show False by simp
    qed
    with first(1) show ?thesis by (simp add: ND kk N0_def D0_def)
  next
    case False
    then have kk: "k = k0 - 1" by (simp add: k_def)
    from False have "2 ^ 53 * D0 \<le> (N0 div D0) * D0"
      using D0pos by (simp add: mult_right_mono)
    also have "\<dots> \<le> N0" by (rule div_mult_le_int[OF D0pos])
    finally have big: "2 ^ 53 * D0 \<le> N0" .
    have step: "N0 * D = 2 * N * D0"
      using scaled_step[of num den k0] by (simp add: N0_def D0_def ND kk)
    have "(2 ^ 52 * D) * (2 * D0) = (2 ^ 53 * D0) * D" by simp
    also have "\<dots> \<le> N0 * D" using big Dpos by (simp add: mult_right_mono)
    also have "\<dots> = N * (2 * D0)" using step by simp
    finally have lo: "2 ^ 52 * D \<le> N"
      using D0pos by (simp add: mult_le_cancel_right)
    have "N * (2 * D0) = N0 * D" using step by simp
    also have "\<dots> < (2 ^ 54 * D0) * D" using first(2) Dpos by (simp add: mult_strict_right_mono)
    also have "\<dots> = (2 ^ 53 * D) * (2 * D0)" by simp
    finally have up: "N < 2 ^ 53 * D"
      using D0pos by (simp add: mult_less_cancel_right)
    from lo up show ?thesis by simp
  qed
  have q_lo: "2 ^ 52 \<le> q" unfolding q_def ND[symmetric]
    using range by (intro div_ge[OF Dpos]) simp
  have q_up: "q < 2 ^ 53" unfolding q_def ND[symmetric]
    using range by (intro div_lt[OF Dpos]) simp
  have qr: "q * D + r = N"
    unfolding q_def r_def ND[symmetric] by (simp add: mult.commute)
  have r: "0 \<le> r" "r < D"
    unfolding r_def ND[symmetric] using Dpos by simp_all
  show ?thesis
  proof (cases "D < 2 * r \<or> (2 * r = D \<and> odd q)")
    case True
    then have m: "m = q + 1" using m_e(1) by (simp add: ND)
    have d: "2 * (m * D - N) = 2 * (D - r)" using qr by (simp add: m algebra_simps)
    from True r have "\<bar>2 * (D - r)\<bar> \<le> D" by auto
    moreover from True r have "\<bar>2 * (D - r)\<bar> = D \<longrightarrow> even (q + 1)" by auto
    ultimately show ?thesis using q_lo q_up unfolding d by (simp add: m)
  next
    case False
    then have m: "m = q" using m_e(1) by (simp add: ND)
    have d: "2 * (m * D - N) = 2 * (- r)" using qr by (simp add: m algebra_simps)
    from False r have "\<bar>2 * (- r)\<bar> \<le> D" by auto
    moreover from False r have "\<bar>2 * (- r)\<bar> = D \<longrightarrow> even q" by auto
    ultimately show ?thesis using q_lo q_up unfolding d by (simp add: m)
  qed
qed

section \<open>The duration (claim C3)\<close>

text \<open>A WAV that is shorter than its header has duration 0.\<close>

lemma audioDurationMs_short: "length audioData < 44 \<Longrightarrow> audioDurationMs audioData = 0"
  by (simp add: audioDurationMs_def float64_of_int_def roundFloat64_def float64_div_def
        float64_mul_def float64_to_int_def)

text \<open>
  Claim C3 says that the duration of a WAV of \<open>S \<ge> 44\<close> bytes is
  \<open>(S - 44) * 1000 div 32000\<close>.  The handler computes in \<open>float64\<close> and truncates, and for
  a WAV of 32076 bytes (32032 bytes of samples, 1001 ms) it gives 1000: the quotient
  \<open>32032 / 32000\<close> is rounded to the \<open>float64\<close> next to 1.001, the product with 1000 is
  rounded to the \<open>float64\<close> just below 1001, and the truncation gives 1000.
\<close>

theorem C3_duration_float_truncation:
  "audioDurationMs (replicate 32076 (CHR 0x00)) = 1000
   \<and> (int (length (replicate 32076 (CHR 0x00))) - 44) * 1000 div 32000 = 1001
   \<and> float64_div (float64_of_int 32032) 32000 = (4508103226997866, - 52)
   \<and> float64_mul (4508103226997866, - 52) 1000 = (8804889115230207, - 43)
   \<and> float64_to_int (8804889115230207, - 43) = 1000"
proof (intro conjI)
  show "audioDurationMs (replicate 32076 (CHR 0x00)) = 1000"
    by (simp add: audioDurationMs_def) code_simp
  show "(int (length (replicate 32076 (CHR 0x00))) - 44) * 1000 div 32000 = 1001"
    by simp
  show "float64_div (float64_of_int 32032) 32000 = (4508103226997866, - 52)"
    by code_simp
  show "float64_mul (4508103226997866, - 52) 1000 = (8804889115230207, - 43)"
    by code_simp
  show "float64_to_int (8804889115230207, - 43) = 1000"
    by code_simp
qed

section \<open>Properties of the store\<close>

text \<open>While the engine fails no statement, the operations are those of the tables.\<close>

lemma nextStatement_healthy: "faults db = [] \<Longrightarrow> nextStatement db = (False, db)"
  by (simp add: nextStatement_def)

lemma Get_healthy:
  "faults db = [] \<Longrightarrow>
   GetTaskFlowsByDevice d db =
     (Inr (map scanTaskFlow (sort_key (\<lambda>row. - col_created_at row)
            (filter (\<lambda>row. col_device_eui row = d) (task_flows db)))), db)"
  by (simp add: GetTaskFlowsByDevice_def nextStatement_healthy)

lemma Delete_healthy:
  assumes "faults db = []"
  shows "snd (DeleteTaskFlow i db) = db\<lparr>task_flows := filter (\<lambda>row. col_id row \<noteq> i) (task_flows db)\<rparr>"
proof (cases "filter (\<lambda>row. col_id row = i) (task_flows db) = []")
  case True
  then have "filter (\<lambda>row. col_id row \<noteq> i) (task_flows db) = task_flows db"
    by (auto simp: filter_empty_conv filter_id_conv)
  with True assms show ?thesis
    by (simp add: DeleteTaskFlow_def nextStatement_healthy)
next
  case False
  with assms show ?thesis
    by (simp add: DeleteTaskFlow_def nextStatement_healthy)
qed

lemma deleteOldTasks_healthy:
  "faults db = [] \<Longrightarrow>
   deleteOldTasks ts db = db\<lparr>task_flows := filter (\<lambda>row. col_id row \<notin> ID ` set ts) (task_flows db)\<rparr>"
proof (induction ts arbitrary: db)
  case Nil
  then show ?case by simp
next
  case (Cons t ts)
  let ?db1 = "db\<lparr>task_flows := filter (\<lambda>row. col_id row \<noteq> ID t) (task_flows db)\<rparr>"
  have f: "faults ?db1 = []" using Cons.prems by simp
  have "deleteOldTasks (t # ts) db = deleteOldTasks ts ?db1"
    using Cons.prems by (simp add: Delete_healthy)
  also have "\<dots> = ?db1\<lparr>task_flows := filter (\<lambda>row. col_id row \<notin> ID ` set ts) (task_flows ?db1)\<rparr>"
    by (rule Cons.IH[OF f])
  also have "\<dots> = db\<lparr>task_flows := filter (\<lambda>row. col_id row \<notin> ID ` set (t # ts)) (task_flows db)\<rparr>"
    by (auto intro: filter_cong)
  finally show ?case .
qed

lemma ID_scanTaskFlow: "ID (scanTaskFlow row) = col_id row"
  by (simp add: scanTaskFlow_def)

text \<open>After its old tasks are deleted, no row of the device is left.\<close>

lemma superseded:
  assumes "faults db = []"
    and "GetTaskFlowsByDevice d db = (Inr ts, db1)"
  shows "filter (\<lambda>row. col_device_eui row = d) (task_flows (deleteOldTasks ts db1)) = []"
    and "faults (deleteOldTasks ts db1) = []"
proof -
  let ?rows = "sort_key (\<lambda>row. - col_created_at row)
            (filter (\<lambda>row. col_device_eui row = d) (task_flows db))"
  from assms have ts: "ts = map scanTaskFlow ?rows" and db1: "db1 = db"
    by (auto simp: Get_healthy)
  have ids: "ID ` set ts = col_id ` {row \<in> set (task_flows db). col_device_eui row = d}"
    unfolding ts by (auto simp: ID_scanTaskFlow image_image)
  have del: "deleteOldTasks ts db1 =
      db\<lparr>task_flows := filter (\<lambda>row. col_id row \<notin> ID ` set ts) (task_flows db)\<rparr>"
    unfolding db1 by (rule deleteOldTasks_healthy[OF assms(1)])
  show "filter (\<lambda>row. col_device_eui row = d) (task_flows (deleteOldTasks ts db1)) = []"
    unfolding del ids by (auto simp: filter_empty_conv)
  show "faults (deleteOldTasks ts db1) = []"
    unfolding del using assms(1) by simp
qed

lemma Save_healthy:
  assumes "faults db = []"
  defines "ident \<equiv> max (task_flows_seq db) (foldr max (map col_id (task_flows db)) 0) + 1"
  shows "SaveTaskFlow now t db =
     (Inr (t\<lparr>ID := ident, CreatedAt := now, UpdatedAt := now\<rparr>),
      db\<lparr>task_flows := task_flows db @
            [\<lparr>col_id = ident, col_device_eui = DeviceEUI t, col_name = Name t,
              col_headline = Headline t, col_trigger_condition = TriggerCondition t,
              col_target_objects = Encoded (TargetObjects t), col_actions = Encoded (Actions t),
              col_model_type = ModelType t, col_created_at = now, col_updated_at = now\<rparr>],
          task_flows_seq := ident\<rparr>)"
  using assms by (simp add: SaveTaskFlow_def nextStatement_healthy Let_def)

lemma scan_saved:
  "scanTaskFlow \<lparr>col_id = i, col_device_eui = DeviceEUI t, col_name = Name t,
              col_headline = Headline t, col_trigger_condition = TriggerCondition t,
              col_target_objects = Encoded (TargetObjects t), col_actions = Encoded (Actions t),
              col_model_type = ModelType t, col_created_at = now, col_updated_at = now\<rparr>
   = t\<lparr>ID := i, CreatedAt := now, UpdatedAt := now\<rparr>"
  by (simp add: scanTaskFlow_def)

text \<open>Deleting the old tasks of a device and saving a new one leaves only the new one.\<close>

lemma supersede:
  fixes now :: time and t :: TaskFlow and db :: store
  assumes h: "faults db = []"
  defines "d \<equiv> DeviceEUI t"
  defines "db1 \<equiv> snd (GetTaskFlowsByDevice d db)"
  defines "db2 \<equiv> (case fst (GetTaskFlowsByDevice d db) of Inl err \<Rightarrow> db1 | Inr ts \<Rightarrow> deleteOldTasks ts db1)"
  defines "db3 \<equiv> snd (SaveTaskFlow now t db2)"
  defines "ident \<equiv> max (task_flows_seq db2) (foldr max (map col_id (task_flows db2)) 0) + 1"
  shows "GetTaskFlowsByDevice d db3 = (Inr [t\<lparr>ID := ident, CreatedAt := now, UpdatedAt := now\<rparr>], db3)"
    and "faults db3 = []"
proof -
  obtain ts where g: "GetTaskFlowsByDevice d db = (Inr ts, db)"
    using h by (simp add: Get_healthy)
  have db1: "db1 = db" and db2: "db2 = deleteOldTasks ts db"
    using g by (simp_all add: db1_def db2_def)
  have none: "filter (\<lambda>row. col_device_eui row = d) (task_flows db2) = []"
    and h2: "faults db2 = []"
    unfolding db2 using superseded[OF h g] by simp_all
  have db3: "db3 = db2\<lparr>task_flows := task_flows db2 @
            [\<lparr>col_id = ident, col_device_eui = DeviceEUI t, col_name = Name t,
              col_headline = Headline t, col_trigger_condition = TriggerCondition t,
              col_target_objects = Encoded (TargetObjects t), col_actions = Encoded (Actions t),
              col_model_type = ModelType t, col_created_at = now, col_updated_at = now\<rparr>],
          task_flows_seq := ident\<rparr>"
    unfolding db3_def ident_def by (simp add: Save_healthy[OF h2])
  show h3: "faults db3 = []" unfolding db3 using h2 by simp
  have "filter (\<lambda>row. col_device_eui row = d) (task_flows db3) =
          [\<lparr>col_id = ident, col_device_eui = DeviceEUI t, col_name = Name t,
              col_headline = Headline t, col_trigger_condition = TriggerCondition t,
              col_target_objects = Encoded (TargetObjects t), col_actions = Encoded (Actions t),
              col_model_type = ModelType t, col_created_at = now, col_updated_at = now\<rparr>]"
    unfolding db3 using none by (simp add: d_def)
  then show "GetTaskFlowsByDevice d db3 = (Inr [t\<lparr>ID := ident, CreatedAt := now, UpdatedAt := now\<rparr>], db3)"
    unfolding Get_healthy[OF h3] by (simp add: scan_saved)
qed

text \<open>What a task request that returns a confirmation has done to the store.\<close>

lemma processTaskMode_Inr:
  assumes "processTaskMode env now tr mode d db = (Inr reply, db')"
  shows "\<exists>t. db' = snd (SaveTaskFlow now t
                        (case fst (GetTaskFlowsByDevice d db) of
                           Inl err \<Rightarrow> snd (GetTaskFlowsByDevice d db)
                         | Inr ts \<Rightarrow> deleteOldTasks ts (snd (GetTaskFlowsByDevice d db))))
            \<and> DeviceEUI t = d \<and> Name t = tr \<and> Actions t = [''notify'']
            \<and> length (TargetObjects t) = 1"
proof (cases "callOllamaSimple env TriggerPrompt [tr]")
  case (Inl err)
  with assms show ?thesis by (simp add: processTaskMode_def)
next
  case (Inr trigger)
  show ?thesis
    using assms unfolding processTaskMode_def Inr Let_def split_beta
    apply (simp only: sum.case prod.inject)
    apply (erule conjE)
    apply (rule exI, rule conjI, erule sym)
    apply simp
    done
qed

section \<open>Supersession of task flows (claim C4)\<close>

text \<open>
  Claim C4, as amended.  For every device \<open>D\<close>: after task \<open>T1\<close> and then task \<open>T2\<close> have
  been created for \<open>D\<close> by the task-flow compilation path, and when the engine of the
  store fails no statement from the second request on, \<open>GetTaskFlowsByDevice\<close> for \<open>D\<close>
  returns exactly the one-element list of \<open>T2\<close>, the flow of the second request: the
  second request deletes every prior flow of the device before it inserts the new one.
\<close>

theorem C4_supersession:
  assumes "processTaskMode env1 now1 transcription1 mode1 deviceEUI db0 = (Inr reply1, db1)"
    and "faults db1 = []"
    and "processTaskMode env2 now2 transcription2 mode2 deviceEUI db1 = (Inr reply2, db2)"
  shows "\<exists>T2. GetTaskFlowsByDevice deviceEUI db2 = (Inr [T2], db2)
              \<and> DeviceEUI T2 = deviceEUI \<and> Name T2 = transcription2
              \<and> Actions T2 = [''notify''] \<and> length (TargetObjects T2) = 1
              \<and> CreatedAt T2 = now2 \<and> UpdatedAt T2 = now2"
proof -
  from processTaskMode_Inr[OF assms(3)] obtain t where
    db2: "db2 = snd (SaveTaskFlow now2 t
                        (case fst (GetTaskFlowsByDevice deviceEUI db1) of
                           Inl err \<Rightarrow> snd (GetTaskFlowsByDevice deviceEUI db1)
                         | Inr ts \<Rightarrow> deleteOldTasks ts (snd (GetTaskFlowsByDevice deviceEUI db1))))"
    and t: "DeviceEUI t = deviceEUI" "Name t = transcription2" "Actions t = [''notify'']"
      "length (TargetObjects t) = 1"
    by blast
  note s = supersede[where t = t and now = now2, OF assms(2), unfolded t(1), folded db2]
  from s(1) t show ?thesis by simp
qed

theorem C4_supersession_witness:
  "map Name (projr (fst (GetTaskFlowsByDevice scenarioDevice (afterSecondTask emptyStore))))
     = [''watch the cat'']"
proof -
  let ?p1 = "processTaskMode scenarioEnv 1000 ''watch the door'' 1 scenarioDevice emptyStore"
  let ?p2 = "processTaskMode scenarioEnv 2000 ''watch the cat'' 1 scenarioDevice (snd ?p1)"
  have 1: "?p1 = (Inr (projr (fst ?p1)), snd ?p1)" by code_simp
  have f: "faults (snd ?p1) = []" by code_simp
  have 2: "?p2 = (Inr (projr (fst ?p2)), snd ?p2)" by code_simp
  from C4_supersession [OF 1 f 2] obtain T2 where
    "GetTaskFlowsByDevice scenarioDevice (snd ?p2) = (Inr [T2], snd ?p2)"
    "Name T2 = ''watch the cat''"
    by blast
  then show ?thesis
    by (simp add: afterSecondTask_def afterFirstTask_def)
qed

text \<open>
  The claim as it was stated fails.  \<open>processTaskMode\<close> logs a failed lookup or delete of
  the prior flows and goes on to insert the new flow.  Here the engine fails the fourth
  statement, which is the delete of the first task during the second request: both
  requests return their confirmation, both tasks are created, and the device has two
  task flows afterwards.
\<close>

theorem C4_failed_delete_counterexample:
  "fst (processTaskMode scenarioEnv 1000 ''watch the door'' 1 scenarioDevice fourthFails)
     = Inr ''I've created a monitoring task: Watch for person. I'll watch for person arrives.''
   \<and> fst (processTaskMode scenarioEnv 2000 ''watch the cat'' 1 scenarioDevice
             (afterFirstTask fourthFails))
     = Inr ''I've created a monitoring task: Watch for person. I'll watch for person arrives.''
   \<and> map Name (projr (fst (GetTaskFlowsByDevice scenarioDevice (afterSecondTask fourthFails))))
     = [''watch the cat'', ''watch the door'']"
  by code_simp

section \<open>Framing of the voice response (claim C1)\<close>

text \<open>\<open>Sprintf_d\<close> gives the decimal numeral of its argument.\<close>

lemma decimalValue_snoc: "decimalValue (s @ [c]) = 10 * decimalValue s + (of_char c - 48)"
  by (simp add: decimalValue_def)

lemma digit_value: "d < 10 \<Longrightarrow> (of_char (char_of (48 + d)) :: nat) - 48 = d"
  by simp

lemma decimalValue_Sprintf_d: "decimalValue (Sprintf_d n) = n"
proof (induction n rule: Sprintf_d.induct)
  case (1 n)
  show ?case
  proof (cases "n < 10")
    case True
    then show ?thesis
      by (subst Sprintf_d.simps) (simp add: decimalValue_def)
  next
    case False
    with "1.IH" have "decimalValue (Sprintf_d (n div 10)) = n div 10" by simp
    then show ?thesis
      using False by (subst Sprintf_d.simps) (simp add: decimalValue_snoc digit_value)
  qed
qed



section \<open>Task detail of a device without task flows (claim C5)\<close>




section \<open>The state of a vision response (claim C6)\<close>

lemma isPositive_cues:
  "isPositive s \<longleftrightarrow>
     (\<exists>cue \<in> set [''yes'', ''there is'', ''i can see'', ''visible'', ''present'', ''wearing'',
                    ''detected'']. sublist cue s)"
  by (simp add: isPositive_def Contains_sublist)

lemma isNegative_cues:
  "isNegative s \<longleftrightarrow>
     (\<exists>cue \<in> set [''no'', ''not'', ''cannot'', ''can't'', ''unable'']. sublist cue s)"
  by (simp add: isNegative_def Contains_sublist)

text \<open>
  Claim C6.  For every vision request that is answered with an analysis of the VLM: when
  the type of the request is 0 (recognise) the state of the response is 0 whatever the
  analysis says; when the type is 1 (monitoring) the state is 1 if and only if the
  lower-cased analysis contains at least one of the positive cues \<open>yes\<close>, \<open>there is\<close>,
  \<open>i can see\<close>, \<open>visible\<close>, \<open>present\<close>, \<open>wearing\<close>, \<open>detected\<close> and none of the negative
  cues \<open>no\<close>, \<open>not\<close>, \<open>cannot\<close>, \<open>can't\<close>, \<open>unable\<close>; and it is 0 otherwise.
\<close>

theorem C6_vision_state:
  assumes "Body r = Decoded req"
    and "Img req \<noteq> []"
    and "analyzeImageWithLLaVA env (Img req)
           (if Prompt req = [] then ''what's in the picture?'' else Prompt req) = Inr analysis"
  shows "\<exists>state audio.
           VisionHandler env r =
             Json_Response 200
               (VisionPayload
                  \<lparr>Code = 200,
                   Data = \<lparr>Data_State = state, Data_Type = Type req, Data_Audio = audio,
                           Data_Img = None\<rparr>\<rparr>)
           \<and> (Type req = 0 \<longrightarrow> state = 0)
           \<and> (Type req = 1 \<longrightarrow>
                (state = 1 \<longleftrightarrow>
                   (\<exists>cue \<in> set [''yes'', ''there is'', ''i can see'', ''visible'', ''present'',
                                  ''wearing'', ''detected''].
                      sublist cue (strings_ToLower env analysis))
                   \<and> (\<forall>cue \<in> set [''no'', ''not'', ''cannot'', ''can't'', ''unable''].
                        \<not> sublist cue (strings_ToLower env analysis))))
           \<and> (state = 0 \<or> state = 1)"
proof -
  let ?low = "strings_ToLower env analysis"
  let ?state = "if Type req = 1 then (if isPositive ?low \<and> \<not> isNegative ?low then 1 else 0) else (0::int)"
  let ?audio = "if AudioTxt req \<noteq> []
                then (case synthesizeSpeech env (AudioTxt req) of
                        Inl err \<Rightarrow> None
                      | Inr audioData \<Rightarrow> Some (base64_EncodeToString env audioData))
                else None"
  have v: "VisionHandler env r =
             Json_Response 200
               (VisionPayload
                  \<lparr>Code = 200,
                   Data = \<lparr>Data_State = ?state, Data_Type = Type req, Data_Audio = ?audio,
                           Data_Img = None\<rparr>\<rparr>)"
    using assms unfolding VisionHandler_def Let_def by simp
  have 0: "Type req = 0 \<longrightarrow> ?state = 0" by simp
  have 1: "Type req = 1 \<longrightarrow>
                (?state = 1 \<longleftrightarrow>
                   (\<exists>cue \<in> set [''yes'', ''there is'', ''i can see'', ''visible'', ''present'',
                                  ''wearing'', ''detected'']. sublist cue ?low)
                   \<and> (\<forall>cue \<in> set [''no'', ''not'', ''cannot'', ''can't'', ''unable''].
                        \<not> sublist cue ?low))"
    unfolding isPositive_cues isNegative_cues by simp
  have 2: "?state = 0 \<or> ?state = 1" by simp
  from v 0 1 2 show ?thesis by blast
qed

theorem C6_vision_state_witness:
  "\<exists>audio. VisionHandler scenarioEnv scenarioVisionRequest =
     Json_Response 200
       (VisionPayload
          \<lparr>Code = 200,
           Data = \<lparr>Data_State = 1, Data_Type = 1, Data_Audio = audio, Data_Img = None\<rparr>\<rparr>)"
proof -
  let ?req = "\<lparr>Img = ''/9j/4AAQ'', Prompt = ''is there a person?'', AudioTxt = [], Type = 1\<rparr>"
  let ?analysis = "''Yes, there is a person in the frame.''"
  have 1: "Body scenarioVisionRequest = Decoded ?req"
    by (simp add: scenarioVisionRequest_def)
  have 2: "Img ?req \<noteq> []" by simp
  have 3: "analyzeImageWithLLaVA scenarioEnv (Img ?req)
             (if Prompt ?req = [] then ''what's in the picture?'' else Prompt ?req) = Inr ?analysis"
    by (simp add: scenarioEnv_def)
  have low: "strings_ToLower scenarioEnv ?analysis = ''yes, there is a person in the frame.''"
    by code_simp
  have pos: "\<exists>cue \<in> set [''yes'', ''there is'', ''i can see'', ''visible'', ''present'',
                           ''wearing'', ''detected''].
               sublist cue ''yes, there is a person in the frame.''"
    by code_simp
  have neg: "\<forall>cue \<in> set [''no'', ''not'', ''cannot'', ''can't'', ''unable''].
               \<not> sublist cue ''yes, there is a person in the frame.''"
    by code_simp
  from C6_vision_state [OF 1 2 3] obtain state audio where
    v: "VisionHandler scenarioEnv scenarioVisionRequest =
          Json_Response 200
            (VisionPayload
               \<lparr>Code = 200,
                Data = \<lparr>Data_State = state, Data_Type = Type ?req, Data_Audio = audio,
                        Data_Img = None\<rparr>\<rparr>)"
    and s: "Type ?req = 1 \<longrightarrow>
              (state = 1 \<longleftrightarrow>
                 (\<exists>cue \<in> set [''yes'', ''there is'', ''i can see'', ''visible'', ''present'',
                                ''wearing'', ''detected''].
                    sublist cue (strings_ToLower scenarioEnv ?analysis))
                 \<and> (\<forall>cue \<in> set [''no'', ''not'', ''cannot'', ''can't'', ''unable''].
                      \<not> sublist cue (strings_ToLower scenarioEnv ?analysis)))"
    by blast
  from s pos neg have "state = 1" unfolding low by simp
  with v show ?thesis by auto
qed

section \<open>Reification of a task flow (claim C9)\<close>

text \<open>
  Claim C9.  For every task flow whose list of target objects is not empty the
  reification to the node graph is total, and the single condition of node 1 has as its
  class the first target object.  The read path of the store can return a task flow whose
  list of target objects is empty, since it puts the empty list in the place of a JSON
  column that does not parse; the access to element 0 then has no value, the
  reification is undefined, and the task-detail handler panics.
\<close>

theorem C9_reification:
  "(TargetObjects task \<noteq> [] \<longrightarrow>
      (\<exists>graph node1 nodes params condition.
         convertToNodeREDFormat task = Some graph
         \<and> jsonField ''task_flow'' graph = Some (JArr (node1 # nodes))
         \<and> jsonField ''id'' node1 = Some (JInt 1)
         \<and> jsonField ''params'' node1 = Some params
         \<and> jsonField ''conditions'' params = Some (JArr [condition])
         \<and> jsonField ''class'' condition = Some (JStr (hd (TargetObjects task)))))
   \<and> (faults db = [] \<and> task_flows db = [row] \<and> col_target_objects row = Text txt
        \<and> Header r ''API-OBITER-DEVICE-EUI'' = col_device_eui row \<longrightarrow>
        GetTaskFlowsByDevice (col_device_eui row) db = (Inr [scanTaskFlow row], db)
        \<and> TargetObjects (scanTaskFlow row) = []
        \<and> convertToNodeREDFormat (scanTaskFlow row) = None
        \<and> TaskDetailHandler r db = (Panic, db))"
proof (intro conjI impI)
  assume "TargetObjects task \<noteq> []"
  then obtain target0 rest where t: "TargetObjects task = target0 # rest"
    by (cases "TargetObjects task") auto
  show "\<exists>graph node1 nodes params condition.
         convertToNodeREDFormat task = Some graph
         \<and> jsonField ''task_flow'' graph = Some (JArr (node1 # nodes))
         \<and> jsonField ''id'' node1 = Some (JInt 1)
         \<and> jsonField ''params'' node1 = Some params
         \<and> jsonField ''conditions'' params = Some (JArr [condition])
         \<and> jsonField ''class'' condition = Some (JStr (hd (TargetObjects task)))"
    unfolding convertToNodeREDFormat_def Let_def t
    by (simp add: jsonField_def)
next
  assume a: "faults db = [] \<and> task_flows db = [row] \<and> col_target_objects row = Text txt
        \<and> Header r ''API-OBITER-DEVICE-EUI'' = col_device_eui row"
  then have g: "GetTaskFlowsByDevice (col_device_eui row) db = (Inr [scanTaskFlow row], db)"
    by (simp add: Get_healthy)
  have e: "TargetObjects (scanTaskFlow row) = []"
    using a by (simp add: scanTaskFlow_def)
  have n: "convertToNodeREDFormat (scanTaskFlow row) = None"
    using e by (simp add: convertToNodeREDFormat_def)
  show "GetTaskFlowsByDevice (col_device_eui row) db = (Inr [scanTaskFlow row], db)" by (rule g)
  show "TargetObjects (scanTaskFlow row) = []" by (rule e)
  show "convertToNodeREDFormat (scanTaskFlow row) = None" by (rule n)
  show "TaskDetailHandler r db = (Panic, db)"
    using a g n by (simp add: TaskDetailHandler_def)
qed

theorem C9_reification_witness:
  "TargetObjects scenarioTask \<noteq> []
   \<and> (\<exists>graph node1 nodes params condition.
         convertToNodeREDFormat scenarioTask = Some graph
         \<and> jsonField ''task_flow'' graph = Some (JArr (node1 # nodes))
         \<and> jsonField ''params'' node1 = Some params
         \<and> jsonField ''conditions'' params = Some (JArr [condition])
         \<and> jsonField ''class'' condition = Some (JStr ''person''))
   \<and> faults brokenStore = [] \<and> task_flows brokenStore = [brokenRow]
   \<and> col_target_objects brokenRow = Text ''[person''
   \<and> TaskDetailHandler \<lparr>Header = scenarioHeader, Body = ()\<rparr> brokenStore = (Panic, brokenStore)"
proof -
  let ?r = "\<lparr>Header = scenarioHeader, Body = ()\<rparr> :: unit request"
  have 1: "TargetObjects scenarioTask \<noteq> []" by (simp add: scenarioTask_def)
  have 2: "faults brokenStore = [] \<and> task_flows brokenStore = [brokenRow]
           \<and> col_target_objects brokenRow = Text ''[person''
           \<and> Header ?r ''API-OBITER-DEVICE-EUI'' = col_device_eui brokenRow"
    by (simp add: brokenStore_def emptyStore_def brokenRow_def scenarioHeader_def)
  have h: "hd (TargetObjects scenarioTask) = ''person''" by (simp add: scenarioTask_def)
  note c = C9_reification [of scenarioTask brokenStore brokenRow "''[person''" ?r]
  from c 1 have a: "\<exists>graph node1 nodes params condition.
         convertToNodeREDFormat scenarioTask = Some graph
         \<and> jsonField ''task_flow'' graph = Some (JArr (node1 # nodes))
         \<and> jsonField ''params'' node1 = Some params
         \<and> jsonField ''conditions'' params = Some (JArr [condition])
         \<and> jsonField ''class'' condition = Some (JStr ''person'')"
    unfolding h by blast
  from c 2 have b: "TaskDetailHandler ?r brokenStore = (Panic, brokenStore)"
    by blast
  from 1 a 2 b show ?thesis by blast
qed

section \<open>The device identifier of a notification (claim C10)\<close>




end
